theory Spec2Isabelle
  imports Complex_Main "HOL-Library.Sublist"
begin

section \<open>JavaScript values and the string operations the proxy uses\<close>

text \<open>
  A JavaScript string is a sequence of 16-bit code units. It is represented here by the
  byte string that writes each code unit as UTF-8 writes a code point (one to three bytes),
  so ASCII text is itself. The operations of \<^verbatim>\<open>main.ts\<close> on strings (concatenation,
  \<^verbatim>\<open>split\<close> on an ASCII separator, \<^verbatim>\<open>startsWith\<close> an ASCII prefix, \<^verbatim>\<open>slice(6)\<close> behind such
  a prefix) act the same on both forms.

  \<open>JNumber q\<close> holds the exact value \<open>q\<close> of a number; the runtime stores the nearest
  double, which is zero exactly when \<open>\<bar>q\<bar> \<le> 2 ^ -1075\<close>.
  An object is the list of its members in the order they were written; a later member of
  the same name overrides an earlier one.
\<close>

datatype jsval =
    JUndefined
  | JNull
  | JBool bool
  | JNumber rat
  | JString string
  | JArray "jsval list"
  | JObject "(string \<times> jsval) list"

abbreviation (input) LF :: char where
  "LF \<equiv> CHR 0x0A"

text \<open>\<^verbatim>\<open>if (v)\<close> and \<^verbatim>\<open>!v\<close>: JavaScript's ToBoolean.\<close>

fun truthy :: "jsval \<Rightarrow> bool" where
  "truthy JUndefined = False"
| "truthy JNull = False"
| "truthy (JBool b) = b"
| "truthy (JNumber q) = (1 / 2 ^ 1075 < \<bar>q\<bar>)"
| "truthy (JString s) = (s \<noteq> [])"
| "truthy (JArray xs) = True"
| "truthy (JObject ms) = True"

text \<open>
  \<^verbatim>\<open>v.k\<close> for the property names the proxy reads (\<^verbatim>\<open>chunk\<close>, \<^verbatim>\<open>model\<close>, \<^verbatim>\<open>messages\<close>,
  \<^verbatim>\<open>stream\<close>, \<^verbatim>\<open>web_search\<close>), none of which a prototype or an array defines: \<open>None\<close> is
  the TypeError raised on \<^verbatim>\<open>null\<close> and \<^verbatim>\<open>undefined\<close>, a missing property reads as
  \<^verbatim>\<open>undefined\<close>.
\<close>

fun js_get :: "jsval \<Rightarrow> string \<Rightarrow> jsval option" where
  "js_get JUndefined k = None"
| "js_get JNull k = None"
| "js_get (JObject ms) k =
     (case map_of (rev ms) k of None \<Rightarrow> Some JUndefined | Some v \<Rightarrow> Some v)"
| "js_get v k = Some JUndefined"

text \<open>\<^verbatim>\<open>s.startsWith(p)\<close> and \<^verbatim>\<open>s.slice(n)\<close> for \<open>0 \<le> n\<close>.\<close>

definition startsWith :: "string \<Rightarrow> string \<Rightarrow> bool" where
  "startsWith s p = (take (length p) s = p)"

definition slice :: "string \<Rightarrow> nat \<Rightarrow> string" where
  "slice s n = drop n s"

text \<open>
  \<^verbatim>\<open>s.split(sep)\<close> for a non-empty separator: the pieces between the occurrences of \<open>sep\<close>
  found from left to right, each search starting behind the previous occurrence. The
  result always has at least one piece.
\<close>

fun js_split :: "string \<Rightarrow> string \<Rightarrow> string list" where
  "js_split sep [] = [[]]"
| "js_split sep (c # cs) =
     (if sep \<noteq> [] \<and> take (length sep) (c # cs) = sep
      then [] # js_split sep (drop (length sep) (c # cs))
      else (case js_split sep cs of
              [] \<Rightarrow> [[c]]
            | p # ps \<Rightarrow> (c # p) # ps))"


section \<open>\<^verbatim>\<open>JSON.parse\<close>\<close>

text \<open>
  The built-in parser, written out after ECMA-404: a lexer that reads one character at a
  time, and a parser over the tokens that keeps the open arrays and objects on a stack.
  \<open>None\<close> is the SyntaxError the built-in raises.
\<close>

datatype token =
    TLBrace | TRBrace | TLBracket | TRBracket | TColon | TComma
  | TString string | TNumber rat | TTrue | TFalse | TNull

definition is_ws :: "char \<Rightarrow> bool" where
  "is_ws c = (c = CHR '' '' \<or> c = CHR 0x09 \<or> c = LF \<or> c = CHR 0x0D)"

definition is_digit :: "char \<Rightarrow> bool" where
  "is_digit c = (c \<in> set ''0123456789'')"

definition digit_val :: "char \<Rightarrow> nat" where
  "digit_val c = of_char c - 48"

definition digits_val :: "string \<Rightarrow> nat" where
  "digits_val ds = foldl (\<lambda>a c. 10 * a + digit_val c) 0 ds"

definition hex_val :: "char \<Rightarrow> nat option" where
  "hex_val c =
     (if is_digit c then Some (digit_val c)
      else if c \<in> set ''abcdef'' then Some (of_char c - 87)
      else if c \<in> set ''ABCDEF'' then Some (of_char c - 55)
      else None)"

text \<open>The bytes that stand for one 16-bit code unit.\<close>

definition code_unit :: "nat \<Rightarrow> string" where
  "code_unit n =
     (if n < 128 then [char_of n]
      else if n < 2048 then [char_of (192 + n div 64), char_of (128 + n mod 64)]
      else [char_of (224 + n div 4096), char_of (128 + (n div 64) mod 64),
            char_of (128 + n mod 64)])"

definition simple_escape :: "char \<Rightarrow> char option" where
  "simple_escape c =
     (if c = CHR 0x22 then Some (CHR 0x22)
      else if c = CHR 0x5C then Some (CHR 0x5C)
      else if c = CHR ''/'' then Some (CHR ''/'')
      else if c = CHR ''b'' then Some (CHR 0x08)
      else if c = CHR ''f'' then Some (CHR 0x0C)
      else if c = CHR ''n'' then Some LF
      else if c = CHR ''r'' then Some (CHR 0x0D)
      else if c = CHR ''t'' then Some (CHR 0x09)
      else None)"

definition punct :: "char \<Rightarrow> token option" where
  "punct c =
     (if c = CHR ''{'' then Some TLBrace
      else if c = CHR ''}'' then Some TRBrace
      else if c = CHR ''['' then Some TLBracket
      else if c = CHR '']'' then Some TRBracket
      else if c = CHR '':'' then Some TColon
      else if c = CHR '','' then Some TComma
      else None)"

text \<open>
  A number or a literal name is a maximal run of these characters; no JSON text has one
  of them right behind a number or a name.
\<close>

definition is_word_char :: "char \<Rightarrow> bool" where
  "is_word_char c =
     (is_digit c \<or> c \<in> set ''+-.'' \<or>
      (65 \<le> (of_char c :: nat) \<and> (of_char c :: nat) \<le> 90) \<or>
      (97 \<le> (of_char c :: nat) \<and> (of_char c :: nat) \<le> 122))"

text \<open>The exponent part: \<open>e\<close> or \<open>E\<close>, an optional sign, one digit or more.\<close>

definition exponent_val :: "string \<Rightarrow> int option" where
  "exponent_val r =
     (case r of
        [] \<Rightarrow> Some 0
      | c # r1 \<Rightarrow>
          if c = CHR ''e'' \<or> c = CHR ''E'' then
            (let neg = (case r1 of d # _ \<Rightarrow> d = CHR ''-'' | [] \<Rightarrow> False);
                 r2 = (case r1 of d # r' \<Rightarrow> if d = CHR ''-'' \<or> d = CHR ''+'' then r' else r1
                       | [] \<Rightarrow> [])
             in if r2 = [] \<or> \<not> list_all is_digit r2 then None
                else Some (if neg then - int (digits_val r2) else int (digits_val r2)))
          else None)"

text \<open>
  The number grammar: an optional minus, an integer part without a leading zero (unless it
  is the single digit 0), an optional fraction, an optional exponent.
\<close>

definition number_val :: "string \<Rightarrow> rat option" where
  "number_val w =
     (let neg = (case w of c # _ \<Rightarrow> c = CHR ''-'' | [] \<Rightarrow> False);
          r0 = (if neg then tl w else w);
          ip = takeWhile is_digit r0;
          r1 = dropWhile is_digit r0;
          has_frac = (case r1 of c # _ \<Rightarrow> c = CHR ''.'' | [] \<Rightarrow> False);
          fp = (if has_frac then takeWhile is_digit (tl r1) else []);
          r2 = (if has_frac then dropWhile is_digit (tl r1) else r1)
      in if ip = [] \<or> (1 < length ip \<and> hd ip = CHR ''0'') \<or> (has_frac \<and> fp = []) then None
         else (case exponent_val r2 of
                 None \<Rightarrow> None
               | Some e \<Rightarrow>
                   (let m = (of_nat (digits_val (ip @ fp)) :: rat);
                        k = e - int (length fp);
                        v = (if 0 \<le> k then m * 10 ^ nat k else m / 10 ^ nat (- k))
                    in Some (if neg then - v else v))))"

definition word_token :: "string \<Rightarrow> token option" where
  "word_token w =
     (if w = ''true'' then Some TTrue
      else if w = ''false'' then Some TFalse
      else if w = ''null'' then Some TNull
      else map_option TNumber (number_val w))"

datatype lex_state =
    LIdle
  | LWord string
  | LString string
  | LEscape string
  | LUnicode string "nat list"

text \<open>The accumulated word and string are kept reversed, as is the list of tokens.\<close>

definition lex_idle :: "token list \<Rightarrow> char \<Rightarrow> (lex_state \<times> token list) option" where
  "lex_idle acc c =
     (if is_ws c then Some (LIdle, acc)
      else if c = CHR 0x22 then Some (LString [], acc)
      else (case punct c of
              Some t \<Rightarrow> Some (LIdle, t # acc)
            | None \<Rightarrow> if is_word_char c then Some (LWord [c], acc) else None))"

fun lex_step :: "lex_state \<Rightarrow> token list \<Rightarrow> char \<Rightarrow> (lex_state \<times> token list) option" where
  "lex_step LIdle acc c = lex_idle acc c"
| "lex_step (LWord w) acc c =
     (if is_word_char c then Some (LWord (c # w), acc)
      else (case word_token (rev w) of
              None \<Rightarrow> None
            | Some t \<Rightarrow> lex_idle (t # acc) c))"
| "lex_step (LString s) acc c =
     (if c = CHR 0x22 then Some (LIdle, TString (rev s) # acc)
      else if c = CHR 0x5C then Some (LEscape s, acc)
      else if (of_char c :: nat) < 32 then None
      else Some (LString (c # s), acc))"
| "lex_step (LEscape s) acc c =
     (if c = CHR ''u'' then Some (LUnicode s [], acc)
      else (case simple_escape c of
              None \<Rightarrow> None
            | Some d \<Rightarrow> Some (LString (d # s), acc)))"
| "lex_step (LUnicode s ds) acc c =
     (case hex_val c of
        None \<Rightarrow> None
      | Some d \<Rightarrow>
          if length ds = 3
          then Some (LString (rev (code_unit (foldl (\<lambda>a h. 16 * a + h) 0 (ds @ [d]))) @ s), acc)
          else Some (LUnicode s (ds @ [d]), acc))"

fun lex_all :: "lex_state \<Rightarrow> token list \<Rightarrow> string \<Rightarrow> token list option" where
  "lex_all LIdle acc [] = Some (rev acc)"
| "lex_all (LWord w) acc [] = map_option (\<lambda>t. rev (t # acc)) (word_token (rev w))"
| "lex_all st acc [] = None"
| "lex_all st acc (c # cs) =
     (case lex_step st acc c of
        None \<Rightarrow> None
      | Some (st', acc') \<Rightarrow> lex_all st' acc' cs)"

text \<open>An open array with its elements so far, or an open object with its members so far
  and the name whose value is being read (both lists reversed).\<close>

datatype ctx =
    CArr "jsval list"
  | CObj "(string \<times> jsval) list" string

datatype parse_state =
    PValue "ctx list"
  | PArrFirst "ctx list"
  | PArrNext "jsval list" "ctx list"
  | PObjFirst "ctx list"
  | PObjKey "(string \<times> jsval) list" "ctx list"
  | PObjColon "(string \<times> jsval) list" string "ctx list"
  | PObjNext "(string \<times> jsval) list" "ctx list"
  | PDone jsval

text \<open>A value is complete: it is the whole text, the next element of the innermost open
  array, or the value of the pending member of the innermost open object.\<close>

fun complete :: "jsval \<Rightarrow> ctx list \<Rightarrow> parse_state" where
  "complete v [] = PDone v"
| "complete v (CArr es # st) = PArrNext (v # es) st"
| "complete v (CObj ms k # st) = PObjNext ((k, v) # ms) st"

fun value_start :: "token \<Rightarrow> ctx list \<Rightarrow> parse_state option" where
  "value_start (TString s) st = Some (complete (JString s) st)"
| "value_start (TNumber q) st = Some (complete (JNumber q) st)"
| "value_start TTrue st = Some (complete (JBool True) st)"
| "value_start TFalse st = Some (complete (JBool False) st)"
| "value_start TNull st = Some (complete JNull st)"
| "value_start TLBracket st = Some (PArrFirst st)"
| "value_start TLBrace st = Some (PObjFirst st)"
| "value_start t st = None"

fun parse_step :: "parse_state \<Rightarrow> token \<Rightarrow> parse_state option" where
  "parse_step (PValue st) t = value_start t st"
| "parse_step (PArrFirst st) t =
     (if t = TRBracket then Some (complete (JArray []) st) else value_start t (CArr [] # st))"
| "parse_step (PArrNext es st) t =
     (if t = TComma then Some (PValue (CArr es # st))
      else if t = TRBracket then Some (complete (JArray (rev es)) st)
      else None)"
| "parse_step (PObjFirst st) t =
     (case t of
        TRBrace \<Rightarrow> Some (complete (JObject []) st)
      | TString k \<Rightarrow> Some (PObjColon [] k st)
      | _ \<Rightarrow> None)"
| "parse_step (PObjKey ms st) t =
     (case t of TString k \<Rightarrow> Some (PObjColon ms k st) | _ \<Rightarrow> None)"
| "parse_step (PObjColon ms k st) t =
     (if t = TColon then Some (PValue (CObj ms k # st)) else None)"
| "parse_step (PObjNext ms st) t =
     (if t = TComma then Some (PObjKey ms st)
      else if t = TRBrace then Some (complete (JObject (rev ms)) st)
      else None)"
| "parse_step (PDone v) t = None"

fun parse_all :: "parse_state \<Rightarrow> token list \<Rightarrow> jsval option" where
  "parse_all (PDone v) [] = Some v"
| "parse_all ps [] = None"
| "parse_all ps (t # ts) =
     (case parse_step ps t of
        None \<Rightarrow> None
      | Some ps' \<Rightarrow> parse_all ps' ts)"

definition JSON_parse :: "string \<Rightarrow> jsval option" where
  "JSON_parse s =
     (case lex_all LIdle [] s of
        None \<Rightarrow> None
      | Some ts \<Rightarrow> parse_all (PValue []) ts)"


section \<open>The proxy\<close>

text \<open>
  What one call reads from the runtime: the string \<^verbatim>\<open>crypto.randomUUID()\<close> returns, the
  milliseconds \<^verbatim>\<open>Date.now()\<close> returns, and the decimal notation the runtime gives a number
  when it is appended to a string.
\<close>

record runtime =
  randomUUID :: string
  now :: nat
  numberToString :: "rat \<Rightarrow> string"

text \<open>
  The string that \<^verbatim>\<open>content + v\<close> appends for a value \<open>v\<close> that \<^verbatim>\<open>JSON.parse\<close> returned, as
  \<^verbatim>\<open>content += data.chunk\<close> computes it; \<open>None\<close> is the TypeError of the conversion. An object
  is converted by the \<^verbatim>\<open>toString\<close> it inherits, unless it has a member of that name: no
  member is a function, so then neither \<^verbatim>\<open>valueOf\<close> nor \<^verbatim>\<open>toString\<close> gives a primitive and the
  conversion raises. An array is converted by \<^verbatim>\<open>join\<close>, which writes \<^verbatim>\<open>null\<close> as the empty
  string and converts every other element in the same way, raising when one of them does.
\<close>

fun js_join :: "string list \<Rightarrow> string" where
  "js_join [] = []"
| "js_join [s] = s"
| "js_join (s # t # ss) = s @ '','' @ js_join (t # ss)"

fun js_ToString :: "(rat \<Rightarrow> string) \<Rightarrow> jsval \<Rightarrow> string option" where
  "js_ToString nts JUndefined = Some ''undefined''"
| "js_ToString nts JNull = Some ''null''"
| "js_ToString nts (JBool b) = Some (if b then ''true'' else ''false'')"
| "js_ToString nts (JNumber q) = Some (nts q)"
| "js_ToString nts (JString s) = Some s"
| "js_ToString nts (JArray xs) =
     map_option js_join
       (those (map (\<lambda>x. if x = JNull \<or> x = JUndefined then Some []
                          else js_ToString nts x) xs))"
| "js_ToString nts (JObject ms) =
     (if ''toString'' \<in> set (map fst ms) then None else Some ''[object Object]'')"

subsection \<open>Request transformation\<close>

text \<open>
  \<^verbatim>\<open>transformRequest\<close>. The interfaces \<^verbatim>\<open>OpenAIRequest\<close> and \<^verbatim>\<open>InfiniaxRequest\<close> are erased
  at run time: the argument is whatever \<^verbatim>\<open>req.json()\<close> returned, and the result is the
  object literal with the two properties, to which \<^verbatim>\<open>webSearchEnabled\<close> is added.
\<close>

definition transformRequest :: "jsval \<Rightarrow> jsval option" where
  "transformRequest openaiReq =
     (case js_get openaiReq ''model'' of None \<Rightarrow> None | Some m \<Rightarrow>
      case js_get openaiReq ''messages'' of None \<Rightarrow> None | Some ms \<Rightarrow>
      case js_get openaiReq ''web_search'' of None \<Rightarrow> None | Some ws \<Rightarrow>
        Some (JObject ([(''modelId'', m), (''messages'', ms)] @
                       (if truthy ws then [(''webSearchEnabled'', JBool True)] else []))))"

subsection \<open>Response transformation\<close>

definition generateId :: "runtime \<Rightarrow> string" where
  "generateId rt = ''chatcmpl-'' @ take 24 (filter (\<lambda>c. c \<noteq> CHR ''-'') (randomUUID rt))"

text \<open>\<^verbatim>\<open>Math.floor(Date.now() / 1000)\<close>\<close>

definition epoch_seconds :: "runtime \<Rightarrow> nat" where
  "epoch_seconds rt = now rt div 1000"

text \<open>
  The text the proxy writes to the caller's stream is a sequence of frames:
  \<open>SseData v\<close> is \<^verbatim>\<open>"data: " + JSON.stringify(v) + "\n\n"\<close> and \<open>SseDone\<close> is the literal
  \<^verbatim>\<open>"data: [DONE]\n\n"\<close>. A string built from such frames is the list of them.
\<close>

datatype sse_event = SseData jsval | SseDone

definition transformStreamChunk ::
  "jsval \<Rightarrow> jsval \<Rightarrow> string \<Rightarrow> nat \<Rightarrow> bool \<Rightarrow> sse_event list" where
  "transformStreamChunk content model responseId created isFirst =
     [SseData (JObject
        [(''id'', JString responseId),
         (''object'', JString ''chat.completion.chunk''),
         (''created'', JNumber (of_nat created)),
         (''model'', model),
         (''choices'', JArray [JObject
            [(''index'', JNumber 0),
             (''delta'', if isFirst
                         then JObject [(''role'', JString ''assistant''), (''content'', content)]
                         else JObject [(''content'', content)]),
             (''finish_reason'', JNull)]])])]"

definition createStreamEndChunk :: "jsval \<Rightarrow> string \<Rightarrow> nat \<Rightarrow> sse_event list" where
  "createStreamEndChunk model responseId created =
     [SseData (JObject
        [(''id'', JString responseId),
         (''object'', JString ''chat.completion.chunk''),
         (''created'', JNumber (of_nat created)),
         (''model'', model),
         (''choices'', JArray [JObject
            [(''index'', JNumber 0),
             (''delta'', JObject []),
             (''finish_reason'', JString ''stop'')]])]),
      SseDone]"

definition transformResponse :: "runtime \<Rightarrow> string \<Rightarrow> jsval \<Rightarrow> jsval" where
  "transformResponse rt content model =
     JObject
       [(''id'', JString (generateId rt)),
        (''object'', JString ''chat.completion''),
        (''created'', JNumber (of_nat (epoch_seconds rt))),
        (''model'', model),
        (''choices'', JArray [JObject
           [(''index'', JNumber 0),
            (''message'', JObject [(''role'', JString ''assistant''),
                                   (''content'', JString content)]),
            (''finish_reason'', JString ''stop'')]])]"

subsection \<open>Responses and errors\<close>

text \<open>A response body is the value given to \<^verbatim>\<open>JSON.stringify\<close>, or the frames of an
  event stream.\<close>

datatype response_body = JsonBody jsval | EventStream "sse_event list"

record response =
  status :: nat
  headers :: "(string \<times> string) list"
  body :: response_body

definition errorResponse :: "string \<Rightarrow> nat \<Rightarrow> response" where
  "errorResponse message st =
     \<lparr>status = st,
      headers = [(''Content-Type'', ''application/json'')],
      body = JsonBody (JObject [(''error'', JObject [(''message'', JString message)])])\<rparr>"

definition handleUpstreamError :: "nat \<Rightarrow> response" where
  "handleUpstreamError st =
     (if st = 401 \<or> st = 403 then errorResponse ''Authentication failed'' 401
      else errorResponse ''Upstream error'' 502)"

subsection \<open>The streaming path\<close>

text \<open>
  The two variables the transform stream of \<^verbatim>\<open>handleStreamingResponse\<close> updates;
  \<^verbatim>\<open>model\<close>, \<^verbatim>\<open>responseId\<close> and \<^verbatim>\<open>created\<close> are constants of the closure and are passed
  along.
\<close>

record stream_state =
  isFirst :: bool
  buffer :: string

text \<open>
  The test that \<^verbatim>\<open>transform\<close>, \<^verbatim>\<open>flush\<close> and \<^verbatim>\<open>parseInfiniaxSSE\<close> each make on one piece
  of text: it starts with \<^verbatim>\<open>data: \<close>, the rest parses, and \<^verbatim>\<open>data.chunk\<close> is truthy; the
  result is that \<^verbatim>\<open>data.chunk\<close>. A SyntaxError of \<^verbatim>\<open>JSON.parse\<close> and the TypeError of
  \<^verbatim>\<open>data.chunk\<close> on \<^verbatim>\<open>null\<close> are caught by the \<^verbatim>\<open>try\<close> around them, and the piece is
  skipped.
\<close>

definition data_chunk :: "string \<Rightarrow> jsval option" where
  "data_chunk msg =
     (if startsWith msg ''data: '' then
        (case JSON_parse (slice msg 6) of
           None \<Rightarrow> None
         | Some data \<Rightarrow>
             (case js_get data ''chunk'' of
                None \<Rightarrow> None
              | Some c \<Rightarrow> if truthy c then Some c else None))
      else None)"

text \<open>The loop \<^verbatim>\<open>for (const msg of messages)\<close>: the flag after it and the frames
  enqueued. The flag is cleared whenever a frame is enqueued.\<close>

fun transform_loop ::
  "jsval \<Rightarrow> string \<Rightarrow> nat \<Rightarrow> bool \<Rightarrow> string list \<Rightarrow> bool \<times> sse_event list" where
  "transform_loop model responseId created first [] = (first, [])"
| "transform_loop model responseId created first (msg # msgs) =
     (case data_chunk msg of
        None \<Rightarrow> transform_loop model responseId created first msgs
      | Some c \<Rightarrow>
          (let sseChunk = transformStreamChunk c model responseId created first;
               (first', out) = transform_loop model responseId created False msgs
           in (first', sseChunk @ out)))"

definition transform ::
  "jsval \<Rightarrow> string \<Rightarrow> nat \<Rightarrow> stream_state \<Rightarrow> string \<Rightarrow> stream_state \<times> sse_event list" where
  "transform model responseId created st chunk =
     (let buf = buffer st @ chunk;
          messages = js_split [LF, LF] buf;
          buffer' = (if messages = [] then [] else last messages);
          (first', out) = transform_loop model responseId created (isFirst st) (butlast messages)
      in (\<lparr>isFirst = first', buffer = buffer'\<rparr>, out))"

definition flush :: "jsval \<Rightarrow> string \<Rightarrow> nat \<Rightarrow> stream_state \<Rightarrow> sse_event list" where
  "flush model responseId created st =
     (case data_chunk (buffer st) of
        None \<Rightarrow> []
      | Some c \<Rightarrow> transformStreamChunk c model responseId created (isFirst st))
     @ createStreamEndChunk model responseId created"

text \<open>\<^verbatim>\<open>body.pipeThrough(transformStream)\<close> on an upstream body that delivers the given
  chunks and then ends: \<^verbatim>\<open>transform\<close> on each chunk in turn, then \<^verbatim>\<open>flush\<close>. A chunk is given
  as the text \<^verbatim>\<open>new TextDecoder().decode(chunk)\<close> makes of it. Nothing in the body of
  \<^verbatim>\<open>transform\<close> raises outside the inner \<^verbatim>\<open>try\<close>, so its outer \<^verbatim>\<open>catch\<close> has no branch here.\<close>

fun pipeThrough ::
  "jsval \<Rightarrow> string \<Rightarrow> nat \<Rightarrow> stream_state \<Rightarrow> string list \<Rightarrow> sse_event list" where
  "pipeThrough model responseId created st [] = flush model responseId created st"
| "pipeThrough model responseId created st (chunk # chunks) =
     (let (st', out) = transform model responseId created st chunk
      in out @ pipeThrough model responseId created st' chunks)"

text \<open>The upstream body is \<open>None\<close> when the response has none (\<^verbatim>\<open>body === null\<close>), else the
  text of its chunks in the order of arrival.\<close>

definition handleStreamingResponse ::
  "runtime \<Rightarrow> string list option \<Rightarrow> jsval \<Rightarrow> response" where
  "handleStreamingResponse rt upstreamBody model =
     (let responseId = generateId rt;
          created = epoch_seconds rt
      in case upstreamBody of
           None \<Rightarrow> errorResponse ''No response body from upstream'' 502
         | Some chunks \<Rightarrow>
             \<lparr>status = 200,
              headers = [(''Content-Type'', ''text/event-stream''),
                         (''Cache-Control'', ''no-cache''),
                         (''Connection'', ''keep-alive'')],
              body = EventStream
                (pipeThrough model responseId created \<lparr>isFirst = True, buffer = []\<rparr> chunks)\<rparr>)"

subsection \<open>The non-streaming path\<close>

text \<open>\<^verbatim>\<open>parseInfiniaxSSE\<close>. The statement \<^verbatim>\<open>content += data.chunk\<close> is inside the \<^verbatim>\<open>try\<close>: when
  the conversion of the chunk to a string raises, \<^verbatim>\<open>content\<close> is left as it was and the
  loop goes on with the next line.\<close>

definition parseInfiniaxSSE :: "(rat \<Rightarrow> string) \<Rightarrow> string \<Rightarrow> string" where
  "parseInfiniaxSSE nts sseText =
     foldl (\<lambda>content line.
              case data_chunk line of
                None \<Rightarrow> content
              | Some c \<Rightarrow>
                  (case js_ToString nts c of
                     None \<Rightarrow> content
                   | Some s \<Rightarrow> content @ s))
       [] (js_split [LF] sseText)"

text \<open>\<^verbatim>\<open>upstreamResponse.text()\<close> is the whole text of the body, and the empty string when
  the response has no body. The body is one that ends, so \<^verbatim>\<open>text()\<close> does not reject and the
  \<^verbatim>\<open>catch\<close> of \<^verbatim>\<open>handleNonStreamingResponse\<close> has no branch here.\<close>

definition response_text :: "string list option \<Rightarrow> string" where
  "response_text upstreamBody = (case upstreamBody of None \<Rightarrow> [] | Some chunks \<Rightarrow> concat chunks)"

definition handleNonStreamingResponse ::
  "runtime \<Rightarrow> string list option \<Rightarrow> jsval \<Rightarrow> response" where
  "handleNonStreamingResponse rt upstreamBody model =
     (let rawContent = response_text upstreamBody;
          content = parseInfiniaxSSE (numberToString rt) rawContent;
          openaiResponse = transformResponse rt content model
      in \<lparr>status = 200,
          headers = [(''Content-Type'', ''application/json'')],
          body = JsonBody openaiResponse\<rparr>)"

subsection \<open>The chat completions handler\<close>

text \<open>What \<^verbatim>\<open>fetch\<close> gives: it throws, or it resolves to a response with a status and a
  body.\<close>

datatype upstream_result =
    NetworkFailure
  | UpstreamResponse nat "string list option"

text \<open>\<^verbatim>\<open>upstreamResponse.ok\<close>\<close>

definition ok :: "nat \<Rightarrow> bool" where
  "ok st = (200 \<le> st \<and> st \<le> 299)"

text \<open>
  \<^verbatim>\<open>handleChatCompletions\<close> on a request whose body is the text \<open>reqBody\<close>, with an upstream
  that answers the posted object by \<open>upstream\<close>. Reading a property of \<^verbatim>\<open>null\<close> raises a
  TypeError, which the outer \<^verbatim>\<open>catch\<close> turns into the 500 response.
\<close>

definition handleChatCompletions ::
  "runtime \<Rightarrow> (jsval \<Rightarrow> upstream_result) \<Rightarrow> string \<Rightarrow> response" where
  "handleChatCompletions rt upstream reqBody =
     (case JSON_parse reqBody of
        None \<Rightarrow> errorResponse ''Invalid JSON'' 400
      | Some openaiReq \<Rightarrow>
          (case (js_get openaiReq ''model'', js_get openaiReq ''messages'',
                 js_get openaiReq ''stream'', transformRequest openaiReq) of
             (Some model, Some messages, Some stream, Some infiniaxReq) \<Rightarrow>
               if \<not> truthy model \<or> \<not> truthy messages
               then errorResponse ''Missing required fields: model and messages'' 400
               else
                 (let isStreaming = (stream = JBool True)
                  in case upstream infiniaxReq of
                       NetworkFailure \<Rightarrow> errorResponse ''Upstream error'' 502
                     | UpstreamResponse st upstreamBody \<Rightarrow>
                         if \<not> ok st then handleUpstreamError st
                         else if isStreaming
                         then handleStreamingResponse rt upstreamBody model
                         else handleNonStreamingResponse rt upstreamBody model)
           | _ \<Rightarrow> errorResponse ''Internal server error'' 500))"


section \<open>Notions used to state the properties\<close>

text \<open>The fragments that a list of pieces yields under the test \<open>data_chunk\<close>, in order.\<close>

fun fragments :: "string list \<Rightarrow> jsval list" where
  "fragments [] = []"
| "fragments (p # ps) =
     (case data_chunk p of None \<Rightarrow> fragments ps | Some c \<Rightarrow> c # fragments ps)"

text \<open>The frames for a list of fragments, the flag \<open>first\<close> being passed for the first of
  them and \<open>False\<close> for the others.\<close>

fun content_frames ::
  "jsval \<Rightarrow> string \<Rightarrow> nat \<Rightarrow> bool \<Rightarrow> jsval list \<Rightarrow> sse_event list" where
  "content_frames model responseId created first [] = []"
| "content_frames model responseId created first (f # fs) =
     transformStreamChunk f model responseId created first
     @ content_frames model responseId created False fs"

text \<open>The frames of a response, and what a reader of one frame sees in it: the single entry
  of \<^verbatim>\<open>choices\<close>, its \<^verbatim>\<open>delta\<close> and \<^verbatim>\<open>finish_reason\<close>, and the \<^verbatim>\<open>content\<close> of the delta when
  there is one.\<close>

definition stream_events :: "response \<Rightarrow> sse_event list" where
  "stream_events r = (case body r of EventStream es \<Rightarrow> es | JsonBody v \<Rightarrow> [])"

definition event_field :: "string \<Rightarrow> sse_event \<Rightarrow> jsval option" where
  "event_field k e = (case e of SseData v \<Rightarrow> js_get v k | SseDone \<Rightarrow> None)"

definition event_choice :: "sse_event \<Rightarrow> jsval option" where
  "event_choice e =
     (case event_field ''choices'' e of Some (JArray [c]) \<Rightarrow> Some c | _ \<Rightarrow> None)"

definition event_delta :: "sse_event \<Rightarrow> jsval option" where
  "event_delta e = (case event_choice e of None \<Rightarrow> None | Some c \<Rightarrow> js_get c ''delta'')"

definition event_finish :: "sse_event \<Rightarrow> jsval option" where
  "event_finish e =
     (case event_choice e of None \<Rightarrow> None | Some c \<Rightarrow> js_get c ''finish_reason'')"



text \<open>The frames before the last two.\<close>

definition content_events :: "sse_event list \<Rightarrow> sse_event list" where
  "content_events es = take (length es - 2) es"








text \<open>The names of the members of an object, in the order they were written.\<close>

definition members :: "jsval \<Rightarrow> string list" where
  "members v = (case v of JObject ms \<Rightarrow> map fst ms | _ \<Rightarrow> [])"

text \<open>What a caller reads off a response: the message, when the body is exactly
  \<^verbatim>\<open>{"error": {"message": <string>}}\<close>, and the content type.\<close>

definition error_message :: "response \<Rightarrow> string option" where
  "error_message r =
     (case body r of
        JsonBody (JObject [(k, JObject [(k', JString msg)])]) \<Rightarrow>
          if k = ''error'' \<and> k' = ''message'' then Some msg else None
      | _ \<Rightarrow> None)"

definition content_type :: "response \<Rightarrow> string option" where
  "content_type r = map_of (headers r) ''Content-Type''"

text \<open>A request body that passes the two checks of \<^verbatim>\<open>handleChatCompletions\<close>: it parses,
  and \<^verbatim>\<open>model\<close> and \<^verbatim>\<open>messages\<close> are truthy.\<close>

definition valid_request :: "string \<Rightarrow> bool" where
  "valid_request reqBody =
     (case JSON_parse reqBody of
        None \<Rightarrow> False
      | Some req \<Rightarrow>
          (case (js_get req ''model'', js_get req ''messages'') of
             (Some m, Some ms) \<Rightarrow> truthy m \<and> truthy ms
           | _ \<Rightarrow> False))"

section \<open>Properties of \<^verbatim>\<open>split\<close>\<close>

lemma take_eq_length: "take (length sep) s = sep \<Longrightarrow> length sep \<le> length s"
proof -
  assume "take (length sep) s = sep"
  then have "length (take (length sep) s) = length sep" by simp
  then show ?thesis by simp
qed

lemma take_append_match: "take (length sep) a = sep \<Longrightarrow> take (length sep) (a @ b) = sep"
  using take_eq_length [of sep a] by simp

lemma drop_append_match:
  "take (length sep) a = sep \<Longrightarrow> drop (length sep) (a @ b) = drop (length sep) a @ b"
  using take_eq_length [of sep a] by simp

lemma take_append_long: "length sep \<le> length a \<Longrightarrow> take (length sep) (a @ b) = take (length sep) a"
  by simp

lemma js_split_nonempty: "js_split sep s \<noteq> []"
  by (induction sep s rule: js_split.induct) (auto split: list.splits)

lemma js_split_match:
  "sep \<noteq> [] \<Longrightarrow> take (length sep) (c # cs) = sep \<Longrightarrow>
   js_split sep (c # cs) = [] # js_split sep (drop (length sep) (c # cs))"
  by simp

lemma js_split_nomatch:
  "\<not> (sep \<noteq> [] \<and> take (length sep) (c # cs) = sep) \<Longrightarrow> js_split sep cs = p # ps \<Longrightarrow>
   js_split sep (c # cs) = (c # p) # ps"
  by auto

lemma js_split_short: "length s < length sep \<Longrightarrow> js_split sep s = [s]"
proof (induction s)
  case Nil
  then show ?case by simp
next
  case (Cons c cs)
  have "take (length sep) (c # cs) \<noteq> sep"
    using take_eq_length [of sep "c # cs"] Cons.prems by auto
  moreover have "js_split sep cs = [cs]" using Cons by simp
  ultimately show ?case by (simp add: js_split_nomatch)
qed

lemma js_split_single: "js_split sep s = [p] \<Longrightarrow> p = s"
proof (induction s arbitrary: p)
  case Nil
  then show ?case by simp
next
  case (Cons c cs)
  show ?case
  proof (cases "sep \<noteq> [] \<and> take (length sep) (c # cs) = sep")
    case True
    then have "js_split sep (c # cs) = [] # js_split sep (drop (length sep) (c # cs))"
      using js_split_match by blast
    with Cons.prems have "js_split sep (drop (length sep) (c # cs)) = []"
      by (simp del: js_split.simps)
    then show ?thesis using js_split_nonempty by blast
  next
    case False
    obtain q qs where q: "js_split sep cs = q # qs"
      using js_split_nonempty by (cases "js_split sep cs") auto
    then have "js_split sep (c # cs) = (c # q) # qs"
      using False by (rule js_split_nomatch [rotated])
    with Cons.prems have "qs = []" "p = c # q" by simp_all
    with q Cons.IH show ?thesis by simp
  qed
qed

lemma js_split_last: "js_split sep (last (js_split sep s)) = [last (js_split sep s)]"
proof (induction sep s rule: js_split.induct)
  case (1 sep)
  then show ?case by simp
next
  case (2 sep c cs)
  show ?case
  proof (cases "sep \<noteq> [] \<and> take (length sep) (c # cs) = sep")
    case True
    then have "js_split sep (c # cs) = [] # js_split sep (drop (length sep) (c # cs))"
      using js_split_match by blast
    then show ?thesis using 2(1) True by (simp add: js_split_nonempty del: js_split.simps)
  next
    case False
    obtain p ps where pps: "js_split sep cs = p # ps"
      using js_split_nonempty by (cases "js_split sep cs") auto
    then have eq: "js_split sep (c # cs) = (c # p) # ps"
      using False by (rule js_split_nomatch [rotated])
    show ?thesis
    proof (cases ps)
      case Nil
      with pps have "p = cs" using js_split_single by blast
      with eq Nil show ?thesis by (simp del: js_split.simps)
    next
      case (Cons q qs)
      with eq pps 2(2) False show ?thesis by (simp del: js_split.simps)
    qed
  qed
qed

lemma js_split_append:
  "js_split sep (a @ b) = butlast (js_split sep a) @ js_split sep (last (js_split sep a) @ b)"
proof (induction sep a rule: js_split.induct)
  case (1 sep)
  then show ?case by simp
next
  case (2 sep c cs)
  show ?case
  proof (cases "sep \<noteq> [] \<and> take (length sep) (c # cs) = sep")
    case True
    then have len: "length sep \<le> length (c # cs)"
      using take_eq_length by blast
    have m1: "js_split sep (c # cs) = [] # js_split sep (drop (length sep) (c # cs))"
      using True js_split_match by blast
    have "take (length sep) (c # (cs @ b)) = sep"
      using True take_append_match [of sep "c # cs" b] by simp
    then have m2: "js_split sep (c # (cs @ b)) = [] # js_split sep (drop (length sep) (c # (cs @ b)))"
      using True js_split_match by blast
    have d: "drop (length sep) (c # (cs @ b)) = drop (length sep) (c # cs) @ b"
      using True drop_append_match [of sep "c # cs" b] by simp
    show ?thesis using 2(1) True m1 m2 d
      by (simp add: js_split_nonempty del: js_split.simps)
  next
    case False
    note nomatch = this
    obtain p ps where pps: "js_split sep cs = p # ps"
      using js_split_nonempty by (cases "js_split sep cs") auto
    then have eq: "js_split sep (c # cs) = (c # p) # ps"
      using nomatch by (rule js_split_nomatch [rotated])
    show ?thesis
    proof (cases ps)
      case Nil
      with pps have "p = cs" using js_split_single by blast
      with eq Nil show ?thesis by (simp del: js_split.simps)
    next
      case (Cons q qs)
      have nm2: "\<not> (sep \<noteq> [] \<and> take (length sep) (c # (cs @ b)) = sep)"
      proof
        assume m: "sep \<noteq> [] \<and> take (length sep) (c # (cs @ b)) = sep"
        have "length (c # cs) < length sep"
        proof (rule ccontr)
          assume "\<not> length (c # cs) < length sep"
          then have "length sep \<le> length (c # cs)" by simp
          then have "take (length sep) ((c # cs) @ b) = take (length sep) (c # cs)"
            by (rule take_append_long)
          with m nomatch show False by simp
        qed
        then have "js_split sep (c # cs) = [c # cs]" by (rule js_split_short)
        with eq Cons show False by simp
      qed
      have IH: "js_split sep (cs @ b) = butlast (js_split sep cs) @ js_split sep (last (js_split sep cs) @ b)"
        using 2(2) nomatch by simp
      then have "js_split sep (cs @ b) = (p # butlast ps) @ js_split sep (last ps @ b)"
        using pps Cons by simp
      then have "js_split sep (c # (cs @ b)) = ((c # p) # butlast ps) @ js_split sep (last ps @ b)"
        using nm2 js_split_nomatch [of sep c "cs @ b" p] by simp
      then show ?thesis using eq Cons by (simp del: js_split.simps)
    qed
  qed
qed

section \<open>The stream as a function of the whole upstream text\<close>

text \<open>
  However the upstream text is cut into chunks, \<^verbatim>\<open>transform\<close> and \<^verbatim>\<open>flush\<close> together apply
  the test \<open>data_chunk\<close> to the pieces that \<^verbatim>\<open>split\<close> finds in the whole text, in order:
  the buffer kept between two calls is always the last piece of what has arrived.
\<close>

lemma fragments_append: "fragments (xs @ ys) = fragments xs @ fragments ys"
  by (induction xs) (auto split: option.splits)

lemma content_frames_append:
  "content_frames m r c first (xs @ ys) =
   content_frames m r c first xs @ content_frames m r c (first \<and> xs = []) ys"
  by (induction xs arbitrary: first) auto

lemma transform_loop_eq:
  "transform_loop m r c first ps =
   (first \<and> fragments ps = [], content_frames m r c first (fragments ps))"
  by (induction ps arbitrary: first) (auto split: option.splits)

lemma flush_eq:
  "flush m r c st =
   content_frames m r c (isFirst st) (fragments [buffer st]) @ createStreamEndChunk m r c"
  by (simp add: flush_def split: option.splits)

lemma pipeThrough_eq:
  "js_split [LF, LF] (buffer st) = [buffer st] \<Longrightarrow>
   pipeThrough m r c st chunks =
   content_frames m r c (isFirst st) (fragments (js_split [LF, LF] (buffer st @ concat chunks)))
   @ createStreamEndChunk m r c"
proof (induction chunks arbitrary: st)
  case Nil
  then show ?case by (simp add: flush_eq del: fragments.simps)
next
  case (Cons chunk chunks)
  let ?pieces = "js_split [LF, LF] (buffer st @ chunk)"
  let ?st' = "\<lparr>isFirst = (isFirst st \<and> fragments (butlast ?pieces) = []), buffer = last ?pieces\<rparr>"
  have t: "transform m r c st chunk =
           (?st', content_frames m r c (isFirst st) (fragments (butlast ?pieces)))"
    by (simp add: transform_def Let_def transform_loop_eq js_split_nonempty)
  have inv: "js_split [LF, LF] (buffer ?st') = [buffer ?st']"
    by (simp add: js_split_last)
  have split: "js_split [LF, LF] (buffer st @ concat (chunk # chunks)) =
               butlast ?pieces @ js_split [LF, LF] (last ?pieces @ concat chunks)"
    using js_split_append [of "[LF, LF]" "buffer st @ chunk" "concat chunks"] by simp
  have "pipeThrough m r c st (chunk # chunks) =
        content_frames m r c (isFirst st) (fragments (butlast ?pieces))
        @ pipeThrough m r c ?st' chunks"
    by (simp add: t)
  also have "pipeThrough m r c ?st' chunks =
        content_frames m r c (isFirst ?st') (fragments (js_split [LF, LF] (buffer ?st' @ concat chunks)))
        @ createStreamEndChunk m r c"
    using Cons.IH [OF inv] .
  finally show ?case
    by (simp only: split fragments_append content_frames_append) simp
qed

lemma handleStreaming_events:
  "stream_events (handleStreamingResponse rt (Some chunks) model) =
   content_frames model (generateId rt) (epoch_seconds rt) True
     (fragments (js_split [LF, LF] (concat chunks)))
   @ createStreamEndChunk model (generateId rt) (epoch_seconds rt)"
  by (simp add: handleStreamingResponse_def stream_events_def Let_def pipeThrough_eq)


















section \<open>Frame ordering\<close>




section \<open>What the frames of a stream look like\<close>

lemma chunk_frame:
  "\<exists>e. transformStreamChunk f m r c first = [e] \<and> e \<noteq> SseDone \<and>
       event_delta e =
         Some (if first then JObject [(''role'', JString ''assistant''), (''content'', f)]
               else JObject [(''content'', f)]) \<and>
       event_finish e = Some JNull \<and>
       event_field ''id'' e = Some (JString r) \<and>
       event_field ''created'' e = Some (JNumber (of_nat c))"
  by (simp add: transformStreamChunk_def event_delta_def event_finish_def event_choice_def
      event_field_def)

lemma end_frame:
  "\<exists>t. createStreamEndChunk m r c = [t, SseDone] \<and>
       event_delta t = Some (JObject []) \<and>
       event_finish t = Some (JString ''stop'') \<and>
       event_field ''id'' t = Some (JString r) \<and>
       event_field ''created'' t = Some (JNumber (of_nat c))"
  by (simp add: createStreamEndChunk_def event_delta_def event_finish_def event_choice_def
      event_field_def)

lemma content_frames_finish:
  "list_all (\<lambda>e. e \<noteq> SseDone \<and> event_finish e = Some JNull) (content_frames m r c first fs)"
proof (induction fs arbitrary: first)
  case Nil
  then show ?case by simp
next
  case (Cons f fs)
  obtain e where "transformStreamChunk f m r c first = [e]" "e \<noteq> SseDone"
    "event_finish e = Some JNull"
    using chunk_frame [of f m r c first] by blast
  with Cons show ?case by simp
qed

lemma content_frames_ids:
  "list_all (\<lambda>e. e = SseDone \<or>
              (event_field ''id'' e = Some (JString r) \<and>
               event_field ''created'' e = Some (JNumber (of_nat c))))
     (content_frames m r c first fs)"
proof (induction fs arbitrary: first)
  case Nil
  then show ?case by simp
next
  case (Cons f fs)
  obtain e where "transformStreamChunk f m r c first = [e]"
    "event_field ''id'' e = Some (JString r)"
    "event_field ''created'' e = Some (JNumber (of_nat c))"
    using chunk_frame [of f m r c first] by blast
  with Cons show ?case by simp
qed

lemma content_frames_deltas:
  "map event_delta (content_frames m r c False fs) = map (\<lambda>g. Some (JObject [(''content'', g)])) fs"
proof (induction fs)
  case Nil
  then show ?case by simp
next
  case (Cons f fs)
  obtain e where "transformStreamChunk f m r c False = [e]"
    "event_delta e = Some (JObject [(''content'', f)])"
    using chunk_frame [of f m r c False] by auto
  with Cons show ?case by simp
qed

lemma content_events_stream:
  "content_events (content_frames m r c first fs @ createStreamEndChunk m r c) =
   content_frames m r c first fs"
  by (simp add: content_events_def createStreamEndChunk_def)

section \<open>Termination of the stream\<close>

text \<open>
  C4. Whatever chunks the upstream body delivers before it ends, and so whatever the
  number of fragments, the frames of the streaming response are some frames that are
  neither the \<^verbatim>\<open>[DONE]\<close> literal nor a chunk with a finish reason other than \<^verbatim>\<open>null\<close>,
  then one chunk whose delta is the empty object and whose finish reason is \<^verbatim>\<open>"stop"\<close>,
  then the \<^verbatim>\<open>[DONE]\<close> literal, and nothing more.
\<close>

theorem stream_termination:
  "\<exists>pre t. stream_events (handleStreamingResponse rt (Some chunks) model) = pre @ [t, SseDone] \<and>
     event_delta t = Some (JObject []) \<and>
     event_finish t = Some (JString ''stop'') \<and>
     list_all (\<lambda>e. e \<noteq> SseDone \<and> event_finish e = Some JNull) pre"
proof -
  let ?pre = "content_frames model (generateId rt) (epoch_seconds rt) True
                (fragments (js_split [LF, LF] (concat chunks)))"
  obtain t where t: "createStreamEndChunk model (generateId rt) (epoch_seconds rt) = [t, SseDone]"
    "event_delta t = Some (JObject [])" "event_finish t = Some (JString ''stop'')"
    using end_frame [of model "generateId rt" "epoch_seconds rt"] by blast
  have "stream_events (handleStreamingResponse rt (Some chunks) model) = ?pre @ [t, SseDone]"
    using handleStreaming_events [of rt chunks model] t(1) by simp
  moreover note t(2,3)
  moreover have "list_all (\<lambda>e. e \<noteq> SseDone \<and> event_finish e = Some JNull) ?pre"
    by (rule content_frames_finish)
  ultimately show ?thesis by blast
qed

theorem stream_termination_witness:
  "\<exists>pre t. stream_events (handleStreamingResponse
       \<lparr>randomUUID = ''123e4567-e89b-12d3-a456-426614174000'', now = 5123,
        numberToString = (\<lambda>q. [])\<rparr> (Some []) (JString ''m'')) = pre @ [t, SseDone] \<and>
     event_delta t = Some (JObject []) \<and>
     event_finish t = Some (JString ''stop'') \<and>
     list_all (\<lambda>e. e \<noteq> SseDone \<and> event_finish e = Some JNull) pre"
  by (rule stream_termination)

section \<open>First-chunk framing\<close>

text \<open>
  C5. In a streaming response, the frames before the terminal pair are one per fragment
  of the upstream text, in order; the delta of the first is
  \<^verbatim>\<open>{role: "assistant", content: fragment}\<close>, the delta of every other one is
  \<^verbatim>\<open>{content: fragment}\<close> with no other member, and each has the finish reason \<^verbatim>\<open>null\<close>.
  The chunks are arbitrary, so the first fragment may be emitted by \<^verbatim>\<open>transform\<close> or only
  by \<^verbatim>\<open>flush\<close>.
\<close>

theorem first_chunk_framing:
  "map event_delta (content_events (stream_events (handleStreamingResponse rt (Some chunks) model))) =
     (case fragments (js_split [LF, LF] (concat chunks)) of
        [] \<Rightarrow> []
      | f # fs \<Rightarrow> Some (JObject [(''role'', JString ''assistant''), (''content'', f)])
                 # map (\<lambda>g. Some (JObject [(''content'', g)])) fs) \<and>
   list_all (\<lambda>e. event_finish e = Some JNull)
     (content_events (stream_events (handleStreamingResponse rt (Some chunks) model)))"
proof -
  let ?fs = "fragments (js_split [LF, LF] (concat chunks))"
  let ?pre = "content_frames model (generateId rt) (epoch_seconds rt) True ?fs"
  have ce: "content_events (stream_events (handleStreamingResponse rt (Some chunks) model)) = ?pre"
    by (simp only: handleStreaming_events content_events_stream)
  have d: "map event_delta ?pre =
     (case ?fs of
        [] \<Rightarrow> []
      | f # fs \<Rightarrow> Some (JObject [(''role'', JString ''assistant''), (''content'', f)])
                 # map (\<lambda>g. Some (JObject [(''content'', g)])) fs)"
  proof (cases ?fs)
    case Nil
    then show ?thesis by simp
  next
    case (Cons f fs)
    obtain e where "transformStreamChunk f model (generateId rt) (epoch_seconds rt) True = [e]"
      "event_delta e = Some (JObject [(''role'', JString ''assistant''), (''content'', f)])"
      using chunk_frame [of f model "generateId rt" "epoch_seconds rt" True] by auto
    with Cons show ?thesis by (simp add: content_frames_deltas)
  qed
  have "list_all (\<lambda>e. e \<noteq> SseDone \<and> event_finish e = Some JNull) ?pre"
    by (rule content_frames_finish)
  then have f: "list_all (\<lambda>e. event_finish e = Some JNull) ?pre"
    by (simp add: list_all_iff)
  from d f show ?thesis by (simp only: ce) 
qed

theorem first_chunk_framing_witness:
  \<open>map event_delta (content_events (stream_events (handleStreamingResponse
       \<lparr>randomUUID = ''123e4567-e89b-12d3-a456-426614174000'', now = 5123,
        numberToString = (\<lambda>q. [])\<rparr>
       (Some [''data: {"chunk":"a"}\<newline>\<newline>data: {"chu'', ''nk":"b"}''])
       (JString ''m'')))) =
     [Some (JObject [(''role'', JString ''assistant''), (''content'', JString ''a'')]),
      Some (JObject [(''content'', JString ''b'')])]\<close>
proof -
  have fr: \<open>fragments (js_split [LF, LF]
              (concat [''data: {"chunk":"a"}\<newline>\<newline>data: {"chu'', ''nk":"b"}''])) =
            [JString ''a'', JString ''b'']\<close>
    by code_simp
  from first_chunk_framing
    [of \<open>\<lparr>randomUUID = ''123e4567-e89b-12d3-a456-426614174000'', now = 5123,
          numberToString = (\<lambda>q. [])\<rparr>\<close>
        \<open>[''data: {"chunk":"a"}\<newline>\<newline>data: {"chu'', ''nk":"b"}'']\<close> \<open>JString ''m''\<close>]
  show ?thesis by (simp only: fr list.case list.map)
qed

section \<open>One identifier and one timestamp per call\<close>

text \<open>
  C8. \<^verbatim>\<open>handleStreamingResponse\<close> reads the identifier and the time once, before the stream
  starts; every chunk of the stream, the terminal one included, carries that identifier
  as \<^verbatim>\<open>id\<close> and that time as \<^verbatim>\<open>created\<close>. (The \<^verbatim>\<open>[DONE]\<close> literal has no members.)
\<close>

theorem stable_id_and_created:
  "list_all (\<lambda>e. e = SseDone \<or>
              (event_field ''id'' e = Some (JString (generateId rt)) \<and>
               event_field ''created'' e = Some (JNumber (of_nat (epoch_seconds rt)))))
     (stream_events (handleStreamingResponse rt (Some chunks) model))"
proof -
  obtain t where "createStreamEndChunk model (generateId rt) (epoch_seconds rt) = [t, SseDone]"
    "event_field ''id'' t = Some (JString (generateId rt))"
    "event_field ''created'' t = Some (JNumber (of_nat (epoch_seconds rt)))"
    using end_frame [of model "generateId rt" "epoch_seconds rt"] by blast
  then show ?thesis
    using content_frames_ids [of "generateId rt" "epoch_seconds rt" model True]
    by (simp add: handleStreaming_events)
qed

theorem stable_id_and_created_witness:
  \<open>list_all (\<lambda>e. e = SseDone \<or>
              (event_field ''id'' e = Some (JString ''chatcmpl-123e4567e89b12d3a4564266'') \<and>
               event_field ''created'' e = Some (JNumber 5)))
     (stream_events (handleStreamingResponse
        \<lparr>randomUUID = ''123e4567-e89b-12d3-a456-426614174000'', now = 5123,
         numberToString = (\<lambda>q. [])\<rparr>
        (Some [''data: {"chunk":"a"}\<newline>\<newline>data: {"chu'', ''nk":"b"}''])
        (JString ''m'')))\<close>
proof -
  have g: "generateId \<lparr>randomUUID = ''123e4567-e89b-12d3-a456-426614174000'', now = 5123,
             numberToString = (\<lambda>q. [])\<rparr> = ''chatcmpl-123e4567e89b12d3a4564266''"
    by (simp add: generateId_def)
  have c: "epoch_seconds \<lparr>randomUUID = ''123e4567-e89b-12d3-a456-426614174000'', now = 5123,
             numberToString = (\<lambda>q. [])\<rparr> = 5"
    by (simp add: epoch_seconds_def)
  from stable_id_and_created
    [of \<open>\<lparr>randomUUID = ''123e4567-e89b-12d3-a456-426614174000'', now = 5123,
          numberToString = (\<lambda>q. [])\<rparr>\<close>
        \<open>[''data: {"chunk":"a"}\<newline>\<newline>data: {"chu'', ''nk":"b"}'']\<close> \<open>JString ''m''\<close>]
  show ?thesis by (simp only: g c of_nat_numeral)
qed

section \<open>The request mapper\<close>

text \<open>
  C7. For a request object with a model and a message sequence (of any value, so also a
  non-empty string and a non-empty array), \<^verbatim>\<open>transformRequest\<close> returns an object whose
  \<^verbatim>\<open>modelId\<close> is the model, unchanged, and whose \<^verbatim>\<open>messages\<close> is the message sequence,
  unchanged; it has a member \<^verbatim>\<open>webSearchEnabled\<close> exactly when \<^verbatim>\<open>web_search\<close> is truthy, and
  then its value is \<^verbatim>\<open>true\<close>. When \<^verbatim>\<open>web_search\<close> is absent or \<^verbatim>\<open>false\<close> there is no such
  member.
\<close>

theorem request_mapping:
  assumes "js_get req ''model'' = Some m"
    and "js_get req ''messages'' = Some ms"
    and "js_get req ''web_search'' = Some ws"
  shows "\<exists>res. transformRequest req = Some res \<and>
           js_get res ''modelId'' = Some m \<and>
           js_get res ''messages'' = Some ms \<and>
           (''webSearchEnabled'' \<in> set (members res) \<longleftrightarrow> truthy ws) \<and>
           (truthy ws \<longrightarrow> js_get res ''webSearchEnabled'' = Some (JBool True))"
  using assms by (simp add: transformRequest_def members_def)

theorem request_mapping_witness:
  \<open>\<exists>res. transformRequest (JObject [(''model'', JString ''m''),
             (''messages'', JArray [JObject [(''role'', JString ''user''), (''content'', JString ''hi'')]]),
             (''web_search'', JBool False)]) = Some res \<and>
         js_get res ''modelId'' = Some (JString ''m'') \<and>
         js_get res ''messages'' =
           Some (JArray [JObject [(''role'', JString ''user''), (''content'', JString ''hi'')]]) \<and>
         ''webSearchEnabled'' \<notin> set (members res)\<close>
proof -
  let ?req = \<open>JObject [(''model'', JString ''m''),
             (''messages'', JArray [JObject [(''role'', JString ''user''), (''content'', JString ''hi'')]]),
             (''web_search'', JBool False)]\<close>
  have 1: "js_get ?req ''model'' = Some (JString ''m'')" by simp
  have 2: "js_get ?req ''messages'' =
           Some (JArray [JObject [(''role'', JString ''user''), (''content'', JString ''hi'')]])"
    by simp
  have 3: "js_get ?req ''web_search'' = Some (JBool False)" by simp
  from request_mapping [OF 1 2 3] show ?thesis by simp
qed

text \<open>
  C9. The object \<^verbatim>\<open>transformRequest\<close> returns has no member besides \<^verbatim>\<open>modelId\<close>,
  \<^verbatim>\<open>messages\<close> and \<^verbatim>\<open>webSearchEnabled\<close>: the caller's \<^verbatim>\<open>temperature\<close>, \<^verbatim>\<open>max_tokens\<close> and
  \<^verbatim>\<open>stream\<close> are not in it.
\<close>

theorem request_fields:
  assumes "transformRequest req = Some res"
  shows "set (members res) \<subseteq> {''modelId'', ''messages'', ''webSearchEnabled''} \<and>
         js_get res ''temperature'' = Some JUndefined \<and>
         js_get res ''max_tokens'' = Some JUndefined \<and>
         js_get res ''stream'' = Some JUndefined"
  using assms by (auto simp: transformRequest_def members_def split: option.splits if_splits)

theorem request_fields_witness:
  \<open>transformRequest (JObject [(''model'', JString ''m''), (''messages'', JArray [JNull]),
      (''stream'', JBool True), (''temperature'', JNumber (1 / 2)),
      (''max_tokens'', JNumber 100), (''web_search'', JBool True)]) =
     Some (JObject [(''modelId'', JString ''m''), (''messages'', JArray [JNull]),
                    (''webSearchEnabled'', JBool True)]) \<and>
   set (members (JObject [(''modelId'', JString ''m''), (''messages'', JArray [JNull]),
                          (''webSearchEnabled'', JBool True)]))
     \<subseteq> {''modelId'', ''messages'', ''webSearchEnabled''} \<and>
   js_get (JObject [(''modelId'', JString ''m''), (''messages'', JArray [JNull]),
                    (''webSearchEnabled'', JBool True)]) ''temperature'' = Some JUndefined\<close>
proof -
  have t: \<open>transformRequest (JObject [(''model'', JString ''m''), (''messages'', JArray [JNull]),
      (''stream'', JBool True), (''temperature'', JNumber (1 / 2)),
      (''max_tokens'', JNumber 100), (''web_search'', JBool True)]) =
     Some (JObject [(''modelId'', JString ''m''), (''messages'', JArray [JNull]),
                    (''webSearchEnabled'', JBool True)])\<close>
    by (simp add: transformRequest_def)
  from request_fields [OF t] t show ?thesis by simp
qed

section \<open>The error mapping table\<close>

lemma error_response_observed:
  "status (errorResponse msg st) = st"
  "error_message (errorResponse msg st) = Some msg"
  "content_type (errorResponse msg st) = Some ''application/json''"
  by (simp_all add: errorResponse_def error_message_def content_type_def)

lemma js_get_total: "js_get v k = Some x \<Longrightarrow> \<exists>y. js_get v k' = Some y"
  by (cases v) (auto split: option.splits)

lemma transformRequest_total: "js_get v k = Some x \<Longrightarrow> \<exists>y. transformRequest v = Some y"
proof -
  assume a: "js_get v k = Some x"
  obtain m where "js_get v ''model'' = Some m" using js_get_total [OF a] by blast
  moreover obtain ms where "js_get v ''messages'' = Some ms" using js_get_total [OF a] by blast
  moreover obtain ws where "js_get v ''web_search'' = Some ws" using js_get_total [OF a] by blast
  ultimately show ?thesis by (simp add: transformRequest_def)
qed

lemma valid_requestE:
  assumes "valid_request b"
  obtains req m ms s q where "JSON_parse b = Some req" "js_get req ''model'' = Some m"
    "js_get req ''messages'' = Some ms" "js_get req ''stream'' = Some s"
    "transformRequest req = Some q" "truthy m" "truthy ms"
proof -
  from assms obtain req m ms where r: "JSON_parse b = Some req" "js_get req ''model'' = Some m"
    "js_get req ''messages'' = Some ms" "truthy m" "truthy ms"
    by (auto simp: valid_request_def split: option.splits)
  obtain s where "js_get req ''stream'' = Some s" using js_get_total [OF r(2)] by blast
  moreover obtain q where "transformRequest req = Some q"
    using transformRequest_total [OF r(2)] by blast
  ultimately show ?thesis using r that by blast
qed

lemma upstream_failure:
  assumes "valid_request b" and "\<not> ok st"
  shows "handleChatCompletions rt (\<lambda>q. UpstreamResponse st ub) b = handleUpstreamError st"
proof -
  from assms(1) obtain req m ms s q where "JSON_parse b = Some req" "js_get req ''model'' = Some m"
    "js_get req ''messages'' = Some ms" "js_get req ''stream'' = Some s"
    "transformRequest req = Some q" "truthy m" "truthy ms"
    by (rule valid_requestE)
  then show ?thesis
    using assms(2) by (simp add: handleChatCompletions_def)
qed

lemma network_failure:
  assumes "valid_request b"
  shows "handleChatCompletions rt (\<lambda>q. NetworkFailure) b = errorResponse ''Upstream error'' 502"
proof -
  from assms(1) obtain req m ms s q where "JSON_parse b = Some req" "js_get req ''model'' = Some m"
    "js_get req ''messages'' = Some ms" "js_get req ''stream'' = Some s"
    "transformRequest req = Some q" "truthy m" "truthy ms"
    by (rule valid_requestE)
  then show ?thesis
    by (simp add: handleChatCompletions_def)
qed

lemma parse_not_json: \<open>JSON_parse ''not valid json'' = None\<close>
  by code_simp

lemma parse_no_model: \<open>JSON_parse ''{"messages":[]}'' = Some (JObject [(''messages'', JArray [])])\<close>
  by code_simp

text \<open>
  C3. The literal cases of the table. For a request that passes validation: an upstream
  status 401 gives status 401 with the message \<^verbatim>\<open>Authentication failed\<close>, an upstream
  status 500 gives 502 with \<^verbatim>\<open>Upstream error\<close>, and a \<^verbatim>\<open>fetch\<close> that throws gives 502 with
  \<^verbatim>\<open>Upstream error\<close>. The body \<^verbatim>\<open>not valid json\<close> gives 400 with \<^verbatim>\<open>Invalid JSON\<close>, and the
  body \<^verbatim>\<open>{"messages":[]}\<close> gives 400 with
  \<^verbatim>\<open>Missing required fields: model and messages\<close>. Each body is
  \<^verbatim>\<open>{"error": {"message": <string>}}\<close>.
\<close>

theorem error_mapping:
  \<open>(valid_request b \<longrightarrow>
      status (handleChatCompletions rt (\<lambda>q. UpstreamResponse 401 ub) b) = 401 \<and>
      error_message (handleChatCompletions rt (\<lambda>q. UpstreamResponse 401 ub) b) =
        Some ''Authentication failed'' \<and>
      status (handleChatCompletions rt (\<lambda>q. UpstreamResponse 500 ub) b) = 502 \<and>
      error_message (handleChatCompletions rt (\<lambda>q. UpstreamResponse 500 ub) b) =
        Some ''Upstream error'' \<and>
      status (handleChatCompletions rt (\<lambda>q. NetworkFailure) b) = 502 \<and>
      error_message (handleChatCompletions rt (\<lambda>q. NetworkFailure) b) = Some ''Upstream error'') \<and>
   status (handleChatCompletions rt upstream ''not valid json'') = 400 \<and>
   error_message (handleChatCompletions rt upstream ''not valid json'') = Some ''Invalid JSON'' \<and>
   status (handleChatCompletions rt upstream ''{"messages":[]}'') = 400 \<and>
   error_message (handleChatCompletions rt upstream ''{"messages":[]}'') =
     Some ''Missing required fields: model and messages''\<close>
proof -
  have a: "handleChatCompletions rt upstream ''not valid json'' = errorResponse ''Invalid JSON'' 400"
    by (simp only: handleChatCompletions_def parse_not_json option.case)
  have b: \<open>handleChatCompletions rt upstream ''{"messages":[]}'' =
           errorResponse ''Missing required fields: model and messages'' 400\<close>
    unfolding handleChatCompletions_def parse_no_model
    by (simp add: transformRequest_def)
  have c: "valid_request b \<Longrightarrow>
           handleChatCompletions rt (\<lambda>q. UpstreamResponse 401 ub) b =
             errorResponse ''Authentication failed'' 401 \<and>
           handleChatCompletions rt (\<lambda>q. UpstreamResponse 500 ub) b =
             errorResponse ''Upstream error'' 502 \<and>
           handleChatCompletions rt (\<lambda>q. NetworkFailure) b = errorResponse ''Upstream error'' 502"
    by (simp add: upstream_failure network_failure ok_def handleUpstreamError_def)
  show ?thesis
    using c by (simp add: a b error_response_observed)
qed

theorem error_mapping_witness:
  \<open>valid_request ''{"model":"m","messages":[{"role":"user","content":"hi"}]}'' \<and>
   status (handleChatCompletions
     \<lparr>randomUUID = ''123e4567-e89b-12d3-a456-426614174000'', now = 5123,
      numberToString = (\<lambda>q. [])\<rparr> (\<lambda>q. UpstreamResponse 401 None)
     ''{"model":"m","messages":[{"role":"user","content":"hi"}]}'') = 401 \<and>
   error_message (handleChatCompletions
     \<lparr>randomUUID = ''123e4567-e89b-12d3-a456-426614174000'', now = 5123,
      numberToString = (\<lambda>q. [])\<rparr> (\<lambda>q. UpstreamResponse 500 None)
     ''{"model":"m","messages":[{"role":"user","content":"hi"}]}'') = Some ''Upstream error''\<close>
proof -
  have v: \<open>valid_request ''{"model":"m","messages":[{"role":"user","content":"hi"}]}''\<close>
    by code_simp
  from error_mapping
    [of \<open>''{"model":"m","messages":[{"role":"user","content":"hi"}]}''\<close>
        \<open>\<lparr>randomUUID = ''123e4567-e89b-12d3-a456-426614174000'', now = 5123,
          numberToString = (\<lambda>q. [])\<rparr>\<close> None]
    v show ?thesis by simp
qed

section \<open>Choice of the streaming path\<close>

lemma streaming_content_type_some:
  "content_type (handleStreamingResponse rt (Some chunks) m) = Some ''text/event-stream''"
  by (simp add: handleStreamingResponse_def content_type_def Let_def)

lemma non_streaming_content_type:
  "content_type (handleNonStreamingResponse rt ub m) = Some ''application/json''"
  by (simp add: handleNonStreamingResponse_def content_type_def Let_def)

lemma upstream_error_content_type:
  "content_type (handleUpstreamError st) = Some ''application/json''"
  by (simp add: handleUpstreamError_def error_response_observed)

lemma event_stream_only_if:
  assumes "content_type (handleChatCompletions rt upstream b) = Some ''text/event-stream''"
  shows "\<exists>req. JSON_parse b = Some req \<and> js_get req ''stream'' = Some (JBool True)"
proof (cases "JSON_parse b")
  case None
  with assms show ?thesis
    by (simp add: handleChatCompletions_def error_response_observed)
next
  case (Some req)
  show ?thesis
  proof (rule ccontr)
    assume n: "\<not> ?thesis"
    with Some have ns: "js_get req ''stream'' \<noteq> Some (JBool True)" by simp
    have "content_type (handleChatCompletions rt upstream b) = Some ''application/json''"
      using Some ns
      by (auto simp: handleChatCompletions_def error_response_observed
          non_streaming_content_type upstream_error_content_type Let_def
          split: option.splits upstream_result.splits)
    with assms show False by simp
  qed
qed

text \<open>
  C10. For a request that passes validation and an upstream that answers with a success
  status and a body: the call is answered by \<^verbatim>\<open>handleStreamingResponse\<close>, with content type
  \<^verbatim>\<open>text/event-stream\<close>, exactly when the \<^verbatim>\<open>stream\<close> member of the request is the boolean
  \<^verbatim>\<open>true\<close>; for every other value (absent, \<^verbatim>\<open>false\<close>, \<^verbatim>\<open>null\<close>, the string \<^verbatim>\<open>"true"\<close>, the
  number 1) it is answered by \<^verbatim>\<open>handleNonStreamingResponse\<close>, with content type
  \<^verbatim>\<open>application/json\<close>. By \<open>event_stream_only_if\<close> no call at all is answered with an event
  stream unless \<^verbatim>\<open>stream\<close> is \<^verbatim>\<open>true\<close>.
\<close>

theorem streaming_selection:
  assumes "JSON_parse b = Some req"
    and "js_get req ''model'' = Some m" and "truthy m"
    and "js_get req ''messages'' = Some ms" and "truthy ms"
    and "js_get req ''stream'' = Some s"
    and "ok st"
  shows "(s = JBool True \<longrightarrow>
            handleChatCompletions rt (\<lambda>q. UpstreamResponse st (Some chunks)) b =
            handleStreamingResponse rt (Some chunks) m) \<and>
         (s \<noteq> JBool True \<longrightarrow>
            handleChatCompletions rt (\<lambda>q. UpstreamResponse st (Some chunks)) b =
            handleNonStreamingResponse rt (Some chunks) m) \<and>
         (content_type (handleChatCompletions rt (\<lambda>q. UpstreamResponse st (Some chunks)) b) =
            Some ''text/event-stream'' \<longleftrightarrow> s = JBool True) \<and>
         (content_type (handleChatCompletions rt (\<lambda>q. UpstreamResponse st (Some chunks)) b) =
            Some ''application/json'' \<longleftrightarrow> s \<noteq> JBool True)"
proof -
  obtain q where q: "transformRequest req = Some q"
    using transformRequest_total [OF assms(2)] by blast
  have 1: "s = JBool True \<Longrightarrow>
           handleChatCompletions rt (\<lambda>q. UpstreamResponse st (Some chunks)) b =
           handleStreamingResponse rt (Some chunks) m"
    using assms q by (simp add: handleChatCompletions_def)
  have 2: "s \<noteq> JBool True \<Longrightarrow>
           handleChatCompletions rt (\<lambda>q. UpstreamResponse st (Some chunks)) b =
           handleNonStreamingResponse rt (Some chunks) m"
    using assms q by (simp add: handleChatCompletions_def)
  show ?thesis
  proof (cases "s = JBool True")
    case True
    with 1 show ?thesis by (simp add: streaming_content_type_some)
  next
    case False
    with 2 show ?thesis by (simp add: non_streaming_content_type)
  qed
qed

theorem streaming_selection_witness:
  \<open>JSON_parse ''{"model":"m","messages":[{"role":"user","content":"hi"}],"stream":"true"}'' =
     Some (JObject [(''model'', JString ''m''),
       (''messages'', JArray [JObject [(''role'', JString ''user''), (''content'', JString ''hi'')]]),
       (''stream'', JString ''true'')]) \<and>
   ok 200 \<and>
   content_type (handleChatCompletions
     \<lparr>randomUUID = ''123e4567-e89b-12d3-a456-426614174000'', now = 5123,
      numberToString = (\<lambda>q. [])\<rparr> (\<lambda>q. UpstreamResponse 200 (Some []))
     ''{"model":"m","messages":[{"role":"user","content":"hi"}],"stream":"true"}'') =
     Some ''application/json''\<close>
proof -
  let ?req = \<open>JObject [(''model'', JString ''m''),
       (''messages'', JArray [JObject [(''role'', JString ''user''), (''content'', JString ''hi'')]]),
       (''stream'', JString ''true'')]\<close>
  have p: \<open>JSON_parse ''{"model":"m","messages":[{"role":"user","content":"hi"}],"stream":"true"}'' =
     Some ?req\<close>
    by code_simp
  have m: "js_get ?req ''model'' = Some (JString ''m'')" by simp
  have tm: "truthy (JString ''m'')" by simp
  have ms: "js_get ?req ''messages'' =
    Some (JArray [JObject [(''role'', JString ''user''), (''content'', JString ''hi'')]])"
    by simp
  have tms: "truthy (JArray [JObject [(''role'', JString ''user''), (''content'', JString ''hi'')]])"
    by simp
  have s: "js_get ?req ''stream'' = Some (JString ''true'')" by simp
  have o: "ok 200" by (simp add: ok_def)
  from streaming_selection [OF p m tm ms tms s o] p o show ?thesis
    by (simp add: non_streaming_content_type)
qed

section \<open>An upstream response without a body\<close>

text \<open>
  C6, as the code has it. For a streaming request that passes validation, when the
  upstream answers with a success status and no body, the call fails with status 502 and
  the standard error body; its message is \<^verbatim>\<open>No response body from upstream\<close>. (On the
  non-streaming path \<^verbatim>\<open>upstreamResponse.text()\<close> reads a missing body as the empty text;
  \<open>missing_body_non_streaming\<close> evaluates one such call.)
\<close>

theorem missing_body_streaming:
  assumes "JSON_parse b = Some req"
    and "js_get req ''model'' = Some m" and "truthy m"
    and "js_get req ''messages'' = Some ms" and "truthy ms"
    and "js_get req ''stream'' = Some (JBool True)"
    and "ok st"
  shows "status (handleChatCompletions rt (\<lambda>q. UpstreamResponse st None) b) = 502 \<and>
         error_message (handleChatCompletions rt (\<lambda>q. UpstreamResponse st None) b) =
           Some ''No response body from upstream''"
proof -
  obtain q where q: "transformRequest req = Some q"
    using transformRequest_total [OF assms(2)] by blast
  have "handleChatCompletions rt (\<lambda>q. UpstreamResponse st None) b =
        errorResponse ''No response body from upstream'' 502"
    using assms q by (simp add: handleChatCompletions_def handleStreamingResponse_def Let_def)
  then show ?thesis by (simp add: error_response_observed)
qed

theorem missing_body_streaming_witness:
  \<open>JSON_parse ''{"model":"m","messages":[{"role":"user","content":"hi"}],"stream":true}'' =
     Some (JObject [(''model'', JString ''m''),
       (''messages'', JArray [JObject [(''role'', JString ''user''), (''content'', JString ''hi'')]]),
       (''stream'', JBool True)]) \<and>
   ok 204 \<and>
   status (handleChatCompletions
     \<lparr>randomUUID = ''123e4567-e89b-12d3-a456-426614174000'', now = 5123,
      numberToString = (\<lambda>q. [])\<rparr> (\<lambda>q. UpstreamResponse 204 None)
     ''{"model":"m","messages":[{"role":"user","content":"hi"}],"stream":true}'') = 502\<close>
proof -
  let ?req = \<open>JObject [(''model'', JString ''m''),
       (''messages'', JArray [JObject [(''role'', JString ''user''), (''content'', JString ''hi'')]]),
       (''stream'', JBool True)]\<close>
  have p: \<open>JSON_parse ''{"model":"m","messages":[{"role":"user","content":"hi"}],"stream":true}'' =
     Some ?req\<close>
    by code_simp
  have m: "js_get ?req ''model'' = Some (JString ''m'')" by simp
  have tm: "truthy (JString ''m'')" by simp
  have ms: "js_get ?req ''messages'' =
    Some (JArray [JObject [(''role'', JString ''user''), (''content'', JString ''hi'')]])"
    by simp
  have tms: "truthy (JArray [JObject [(''role'', JString ''user''), (''content'', JString ''hi'')]])"
    by simp
  have s: "js_get ?req ''stream'' = Some (JBool True)" by simp
  have o: "ok 204" by (simp add: ok_def)
  from missing_body_streaming [OF p m tm ms tms s o] p o show ?thesis by simp
qed

text \<open>C6 as stated fails: the message of the streaming path is not \<^verbatim>\<open>Upstream error\<close>.\<close>

theorem missing_body_counterexample:
  \<open>error_message (handleChatCompletions
      \<lparr>randomUUID = ''123e4567-e89b-12d3-a456-426614174000'', now = 5123,
       numberToString = (\<lambda>q. [])\<rparr> (\<lambda>q. UpstreamResponse 204 None)
      ''{"model":"m","messages":[{"role":"user","content":"hi"}],"stream":true}'')
   \<noteq> Some ''Upstream error''\<close>
  by code_simp

lemma missing_body_non_streaming:
  \<open>status (handleChatCompletions
      \<lparr>randomUUID = ''123e4567-e89b-12d3-a456-426614174000'', now = 5123,
       numberToString = (\<lambda>q. [])\<rparr> (\<lambda>q. UpstreamResponse 204 None)
      ''{"model":"m","messages":[{"role":"user","content":"hi"}]}'') = 200\<close>
  by code_simp

section \<open>Aggregation\<close>













end
